theory Spec2Isabelle
  imports Complex_Main
begin

section \<open>The additive synthesis engine of the chord trainer\<close>

text \<open>
  The engine is the method \<^verbatim>\<open>ChordRecognitionApp._play\<close> with the closure
  \<^verbatim>\<open>callback\<close> it hands to the output stream, and \<^verbatim>\<open>calc_B\<close>.

  Numbers. The Python and numpy floats are modelled by the real numbers: rounding
  and the float32 of the time vector and of the output buffer are left out.
  What is kept is every place where the code raises or leaves the reals:
  \<^item> a Python exception is a value \<open>Inl e\<close>;
  \<^item> a value that numpy or Python computes as \<open>nan\<close>, \<open>inf\<close> or a complex number
    (no exception is raised there, the run goes on) is \<open>None\<close> in an \<open>option\<close>.

  The range of the floats is kept for the scalar arithmetic of Python that computes
  the pitch and the stretch coefficient (\<^verbatim>\<open>self.base_freq * eval(r)\<close> and
  \<^verbatim>\<open>calc_B\<close>), because it decides whether \<^verbatim>\<open>**\<close> raises \<^verbatim>\<open>OverflowError\<close>: a result
  whose exact value is beyond the largest float is \<open>inf\<close>. The array arithmetic of
  numpy after it raises nothing; it is over the reals, and its silent overflow to
  \<open>inf\<close> and underflow to 0 are left out like rounding.
\<close>

datatype error =
    EvalError            \<comment> \<open>whatever \<^verbatim>\<open>self.base_freq * eval(r)\<close> raises\<close>
  | ZeroDivisionError
  | OverflowError
  | ValueError

subsection \<open>The settings read by the engine\<close>

text \<open>
  The attributes of \<^verbatim>\<open>self\<close> that \<^verbatim>\<open>_play\<close> and \<^verbatim>\<open>calc_B\<close> read, with the types of
  \<^verbatim>\<open>var_types\<close>: \<^verbatim>\<open>n_harmonics\<close> and \<^verbatim>\<open>fs\<close> are \<^verbatim>\<open>int\<close>, the others \<^verbatim>\<open>float\<close>.
  \<^verbatim>\<open>self.fs\<close> is the field \<open>self_fs\<close>; the name \<open>fs\<close> is kept for the local variable
  that the callback captures.
\<close>

record app =
  base_freq :: real
  self_fs :: int
  n_harmonics :: int
  jitter :: real
  rolloff_coeff :: real
  decay_time :: real
  decay_exponent :: real
  f0 :: real
  B0 :: real
  beta :: real

subsection \<open>Python's float power and \<^verbatim>\<open>calc_B\<close>\<close>

text \<open>The largest float (a double): \<^verbatim>\<open>(2 - 2**-52) * 2**1023\<close>.\<close>

definition float_max :: real where
  "float_max = (2 - 1 / 2 ^ 52) * 2 ^ 1023"

text \<open>
  \<^verbatim>\<open>x ** y\<close> on two Python floats, \<open>x\<close> finite: \<open>1.0\<close> for \<open>y = 0\<close>;
  \<^verbatim>\<open>ZeroDivisionError\<close> for \<open>0.0\<close> to a negative power; \<^verbatim>\<open>OverflowError\<close> when the
  result is beyond the largest float; for a negative base with a non-integral
  exponent the power is computed as a complex number (here \<open>None\<close>), with the same
  \<^verbatim>\<open>OverflowError\<close> when its modulus is beyond the largest float.
\<close>

definition float_pow :: "real \<Rightarrow> real \<Rightarrow> error + real option" where
  "float_pow x y =
     (if y = 0 then Inr (Some 1)
      else if x = 0 then (if y < 0 then Inl ZeroDivisionError else Inr (Some 0))
      else if 0 < x then
        (if float_max < x powr y then Inl OverflowError else Inr (Some (x powr y)))
      else if y = of_int \<lfloor>y\<rfloor> then
        (if float_max < \<bar>x powi \<lfloor>y\<rfloor>\<bar> then Inl OverflowError
         else Inr (Some (x powi \<lfloor>y\<rfloor>)))
      else if float_max < \<bar>x\<bar> powr y then Inl OverflowError
      else Inr None)"

text \<open>
  \<^verbatim>\<open>x ** y\<close> for an infinite \<open>x\<close>, which raises nothing: \<open>1.0\<close> for \<open>y = 0\<close>, zero for
  \<open>y < 0\<close>, infinite for \<open>y > 0\<close>.
\<close>

definition inf_pow :: "real \<Rightarrow> real option" where
  "inf_pow y = (if y = 0 then Some 1 else if y < 0 then Some 0 else None)"

text \<open>
  \<^verbatim>\<open>
  def calc_B(self, f):
      return self.B0 * (f / self.f0)**self.beta
  \<close>
  The division raises \<^verbatim>\<open>ZeroDivisionError\<close> for \<open>f0 = 0\<close>. Its result is infinite when
  \<open>f\<close> is (an exact value beyond the largest float) or when the quotient is beyond
  the largest float. The product with \<open>B0\<close> is \<open>inf\<close> or \<open>nan\<close> (here \<open>None\<close>) when the
  power is, or when the product is beyond the largest float.
\<close>

definition calc_B :: "app \<Rightarrow> real \<Rightarrow> error + real option" where
  "calc_B self f =
     (if f0 self = 0 then Inl ZeroDivisionError
      else
        let x = f / f0 self;
            p = (if float_max < \<bar>f\<bar> \<or> float_max < \<bar>x\<bar> then Inr (inf_pow (beta self))
                 else float_pow x (beta self))
        in case p of
             Inl e \<Rightarrow> Inl e
           | Inr None \<Rightarrow> Inr None
           | Inr (Some v) \<Rightarrow>
               if float_max < \<bar>B0 self * v\<bar> then Inr None else Inr (Some (B0 self * v)))"

subsection \<open>The partials of one ratio\<close>

text \<open>\<^verbatim>\<open>np.arange(1, self.n_harmonics + 1)\<close>: the integers \<open>1..n\<close>, none when \<open>n \<le> 0\<close>.\<close>

definition arange1 :: "int \<Rightarrow> real list" where
  "arange1 n = map of_int [1..n]"

text \<open>
  \<^verbatim>\<open>f_k = pitch * k * np.sqrt(1 + B * k**2)\<close>. The result is \<open>Some\<close> list when every
  entry of the array is a real number: always for an empty \<open>k\<close>. Otherwise an infinite
  \<open>pitch\<close> (an exact value beyond the largest float), a \<open>B\<close> that is no real number
  and \<^verbatim>\<open>np.sqrt\<close> of a negative number, which is \<open>nan\<close>, give \<open>None\<close>.
\<close>

definition stretched :: "real \<Rightarrow> real option \<Rightarrow> real list \<Rightarrow> real list option" where
  "stretched pitch B ks =
     (if ks = [] then Some []
      else if float_max < \<bar>pitch\<bar> then None
      else case B of
        None \<Rightarrow> None
      | Some b \<Rightarrow>
          if \<exists>k \<in> set ks. 1 + b * k\<^sup>2 < 0 then None
          else Some (map (\<lambda>k. pitch * k * sqrt (1 + b * k\<^sup>2)) ks))"

text \<open>
  \<^verbatim>\<open>np.random.uniform(-jitter, +jitter, size=f_k.shape)\<close>. The generator is a parameter:
  \<open>rng i\<close> is the \<open>i\<close>-th unit sample it hands out, a number of \<open>[0, 1)\<close>, and \<open>c\<close> counts
  the samples used so far. numpy computes a uniform sample as
  \<open>low + (high - low) * unit\<close>.
\<close>

definition uniform :: "(nat \<Rightarrow> real) \<Rightarrow> nat \<Rightarrow> real \<Rightarrow> real \<Rightarrow> nat \<Rightarrow> real list" where
  "uniform rng c low high n =
     map (\<lambda>i. low + (high - low) * rng (c + i)) [0..<n]"

text \<open>
  One pass of the loop \<^verbatim>\<open>for r in ratios\<close>:
  \<^verbatim>\<open>
      pitch = self.base_freq * eval(r)
      B     = self.calc_B(pitch)
      k = np.arange(1, self.n_harmonics + 1)
      f_k = pitch * k * np.sqrt(1 + B * k**2)
      if jitter > 0:
          f_k = f_k + np.random.uniform(-jitter, +jitter, size=f_k.shape)
      amp   = 1.0 / (k**p)
      tauk  = tau0 / (k**d)
  \<close>
  \<^verbatim>\<open>eval\<close> is Python's builtin, a parameter \<open>ev\<close> of the model: \<open>ev r\<close> is the number
  the expression evaluates to, or the error raised. Every \<open>k\<close> is at least 1, so
  \<^verbatim>\<open>k**p\<close> with a float \<open>p\<close> is \<open>k powr p\<close>, a positive number.
\<close>

definition ratio_partials ::
  "app \<Rightarrow> (string \<Rightarrow> error + real) \<Rightarrow> (nat \<Rightarrow> real) \<Rightarrow> nat \<Rightarrow> string
     \<Rightarrow> error + (real list option \<times> real list \<times> real list)" where
  "ratio_partials self ev rng c r =
     (case ev r of
        Inl e \<Rightarrow> Inl e
      | Inr m \<Rightarrow>
          let pitch = base_freq self * m in
          case calc_B self pitch of
            Inl e \<Rightarrow> Inl e
          | Inr B \<Rightarrow>
              let k = arange1 (n_harmonics self);
                  f_k = stretched pitch B k;
                  f_k = (if 0 < jitter self
                         then map_option
                                (\<lambda>fk. map2 (+) fk
                                   (uniform rng c (- jitter self) (jitter self) (length fk)))
                                f_k
                         else f_k);
                  amp = map (\<lambda>k. 1 / (k powr rolloff_coeff self)) k;
                  tauk = map (\<lambda>k. decay_time self / (k powr decay_exponent self)) k
              in Inr (f_k, amp, tauk))"

text \<open>
  The number of unit samples one pass takes from the generator: one for each
  harmonic when \<open>jitter > 0\<close>, none otherwise.
\<close>

definition step :: "app \<Rightarrow> nat" where
  "step self = (if 0 < jitter self then nat (n_harmonics self) else 0)"

text \<open>
  The loop, with the local lists \<^verbatim>\<open>f_list\<close>, \<^verbatim>\<open>amp_list\<close>, \<^verbatim>\<open>tau_list\<close> that each pass
  appends to: \<open>rows\<close> holds the three arrays of every pass made. The first exception
  ends the loop, \<open>Inl (e, rows)\<close> with the lists as they are when the exception
  leaves; a pass that left the reals does not end it.
\<close>

fun all_partials ::
  "app \<Rightarrow> (string \<Rightarrow> error + real) \<Rightarrow> (nat \<Rightarrow> real) \<Rightarrow> nat \<Rightarrow> string list
     \<Rightarrow> (error \<times> (real list option \<times> real list \<times> real list) list)
         + (real list option \<times> real list \<times> real list) list" where
  "all_partials self ev rng c [] = Inr []"
| "all_partials self ev rng c (r # rs) =
     (case ratio_partials self ev rng c r of
        Inl e \<Rightarrow> Inl (e, [])
      | Inr row \<Rightarrow>
          (case all_partials self ev rng (c + step self) rs of
             Inl (e, rows) \<Rightarrow> Inl (e, row # rows)
           | Inr rows \<Rightarrow> Inr (row # rows)))"

subsection \<open>The partial set and the normalization constant\<close>

text \<open>
  The arrays and the constant that \<^verbatim>\<open>_play\<close> has when the loop is done:
  \<^verbatim>\<open>
      f_list   = np.concatenate(f_list)
      amp_list = np.concatenate(amp_list)
      tau_list = np.concatenate(tau_list)
      norm = 0.3 / np.sum(amp_list)
  \<close>
  \<^verbatim>\<open>np.concatenate\<close> of an empty list of arrays raises \<^verbatim>\<open>ValueError\<close>. The frequencies
  are \<open>None\<close> when some pass left the reals. Dividing by a numpy zero is \<open>inf\<close> with a
  warning, no exception: \<open>None\<close>. The amplitudes and decay constants are always real.
\<close>

record partial_set =
  b_f_list :: "real list option"
  b_amp_list :: "real list"
  b_tau_list :: "real list"
  b_norm :: "real option"

definition build_partials ::
  "app \<Rightarrow> (string \<Rightarrow> error + real) \<Rightarrow> (nat \<Rightarrow> real) \<Rightarrow> string list
     \<Rightarrow> error + partial_set" where
  "build_partials self ev rng ratios =
     (case all_partials self ev rng 0 ratios of
        Inl (e, rows) \<Rightarrow> Inl e
      | Inr rows \<Rightarrow>
          if rows = [] then Inl ValueError
          else
            let amps = concat (map (\<lambda>(f, a, t). a) rows);
                taus = concat (map (\<lambda>(f, a, t). t) rows)
            in Inr \<lparr> b_f_list = map_option concat (those (map (\<lambda>(f, a, t). f) rows)),
                     b_amp_list = amps,
                     b_tau_list = taus,
                     b_norm = (if sum_list amps = 0 then None
                               else Some (0.3 / sum_list amps)) \<rparr>)"

subsection \<open>The state captured by the callback\<close>

text \<open>
  The variables of \<^verbatim>\<open>_play\<close> that \<^verbatim>\<open>callback\<close> reads (\<^verbatim>\<open>fs\<close>, \<^verbatim>\<open>f_list\<close>, \<^verbatim>\<open>amp_list\<close>,
  \<^verbatim>\<open>tau_list\<close>, \<^verbatim>\<open>norm\<close>) and the two it declares \<^verbatim>\<open>nonlocal\<close> and writes (\<^verbatim>\<open>phases\<close>,
  \<^verbatim>\<open>t_cur\<close>). \<^verbatim>\<open>norm\<close> is the field \<open>norm_c\<close>.
\<close>

record session =
  fs :: int
  f_list :: "real list"
  amp_list :: "real list"
  tau_list :: "real list"
  norm_c :: real
  phases :: "real list"
  t_cur :: real

text \<open>
  \<^verbatim>\<open>_play\<close> up to the point where it opens the output stream: the partial set, and
  \<^verbatim>\<open>
      phases = np.zeros_like(f_list)
      t_cur  = 0.0
  \<close>
  The result is \<open>Inl e\<close> when an exception ends \<^verbatim>\<open>_play\<close> before the stream is opened,
  \<open>Inr None\<close> when the stream is opened on values that are not all real numbers,
  \<open>Inr (Some s)\<close> when it is opened on the state \<open>s\<close>.
\<close>

definition play ::
  "app \<Rightarrow> (string \<Rightarrow> error + real) \<Rightarrow> (nat \<Rightarrow> real) \<Rightarrow> string list
     \<Rightarrow> error + session option" where
  "play self ev rng ratios =
     (case build_partials self ev rng ratios of
        Inl e \<Rightarrow> Inl e
      | Inr b \<Rightarrow>
          (case b_f_list b of
             None \<Rightarrow> Inr None
           | Some fl \<Rightarrow>
               (case b_norm b of
                  None \<Rightarrow> Inr None
                | Some nrm \<Rightarrow>
                    Inr (Some \<lparr> fs = self_fs self,
                                f_list = fl,
                                amp_list = b_amp_list b,
                                tau_list = b_tau_list b,
                                norm_c = nrm,
                                phases = map (\<lambda>_. 0) fl,
                                t_cur = 0 \<rparr>))))"


subsection \<open>The callback\<close>

text \<open>
  \<^verbatim>\<open>np.exp(-(t_cur + t) / tau)\<close> at one time \<open>t\<close> and one decay constant. numpy divides
  by a zero \<open>tau\<close> without an exception: \<open>-inf\<close> for a positive time, whose
  exponential is 0, and \<open>nan\<close> or \<open>inf\<close> otherwise.
\<close>

definition env :: "real \<Rightarrow> real \<Rightarrow> real option" where
  "env tau t =
     (if tau = 0 then (if 0 < t then Some 0 else None)
      else Some (exp (- t / tau)))"

text \<open>numpy's \<^verbatim>\<open>%\<close> on floats: the remainder with the sign of the divisor.\<close>

definition np_mod :: "real \<Rightarrow> real \<Rightarrow> real" where
  "np_mod x y = x - of_int \<lfloor>x / y\<rfloor> * y"

text \<open>
  One output sample, at the time \<open>t\<close> of the local time vector:
  \<^verbatim>\<open>
      env = np.exp(-(t_cur + t)[None, :] / tau_list[:, None])
      arg = phases[:, None] + 2 * np.pi * f_list[:, None] * t[None, :]
      sines = np.sin(arg)
      block = np.sum(amp_list[:, None] * env * sines, axis=0)
      outdata[:, 0] = norm * block
  \<close>
\<close>

definition partial_term :: "real \<Rightarrow> real \<Rightarrow> real \<times> real \<times> real \<times> real \<Rightarrow> real option" where
  "partial_term tc t = (\<lambda>(f, a, tau, ph).
     map_option (\<lambda>e. a * e * sin (ph + 2 * pi * f * t)) (env tau (tc + t)))"

definition sample :: "session \<Rightarrow> real \<Rightarrow> real option" where
  "sample s t =
     map_option (\<lambda>terms. norm_c s * sum_list terms)
       (those (map (partial_term (t_cur s) t)
                 (zip (f_list s) (zip (amp_list s) (zip (tau_list s) (phases s))))))"

text \<open>
  \<^verbatim>\<open>
  def callback(outdata, frames, time, status):
      nonlocal phases, t_cur
      t = np.arange(frames, dtype=np.float32) / fs
      ...
      phases += 2 * np.pi * f_list * (frames / fs)
      phases %= 2 * np.pi
      t_cur  += frames / fs
  \<close>
  \<^verbatim>\<open>frames / fs\<close> divides two Python integers and raises \<^verbatim>\<open>ZeroDivisionError\<close> for
  \<open>fs = 0\<close> (numpy has divided by that zero before, without an exception, and the
  buffer holds no real numbers then; \<^verbatim>\<open>phases\<close> and \<^verbatim>\<open>t_cur\<close> are not assigned). The result is the block written to \<^verbatim>\<open>outdata\<close> and the variables of the
  closure after the call; \<open>advance\<close> is the last three lines, the only assignments
  to variables of the closure.
\<close>

definition advance :: "session \<Rightarrow> real \<Rightarrow> session" where
  "advance s dt =
     s \<lparr> phases := map (\<lambda>ph. np_mod ph (2 * pi))
                      (map2 (\<lambda>ph f. ph + 2 * pi * f * dt) (phases s) (f_list s)),
         t_cur := t_cur s + dt \<rparr>"

definition callback :: "session \<Rightarrow> nat \<Rightarrow> error + (real option list \<times> session)" where
  "callback s frames =
     (if fs s = 0 then Inl ZeroDivisionError
      else
        let t = map (\<lambda>i. real i / of_int (fs s)) [0..<frames];
            outdata = map (sample s) t
        in Inr (outdata, advance s (real frames / of_int (fs s))))"

text \<open>
  The output stream calls the callback once for each block it needs, with the
  number of frames of the block, and stops at the first exception.
\<close>

fun stream_blocks :: "session \<Rightarrow> nat list \<Rightarrow> error + (real option list \<times> session)" where
  "stream_blocks s [] = Inr ([], s)"
| "stream_blocks s (n # ns) =
     (case callback s n of
        Inl e \<Rightarrow> Inl e
      | Inr (out, s') \<Rightarrow>
          (case stream_blocks s' ns of
             Inl e \<Rightarrow> Inl e
           | Inr (outs, s'') \<Rightarrow> Inr (out @ outs, s'')))"

text \<open>The arrays of a state have one entry for each partial.\<close>

definition aligned :: "session \<Rightarrow> bool" where
  "aligned s \<longleftrightarrow>
     length (amp_list s) = length (f_list s) \<and>
     length (tau_list s) = length (f_list s) \<and>
     length (phases s) = length (f_list s)"

subsection \<open>The scenario of the specification\<close>

text \<open>
  The settings of the scenario of the specification: base frequency 220, one
  harmonic, \<open>B0 = 0\<close>, rolloff 1, decay time 1, decay exponent 0, no jitter. The
  other settings are not fixed by the scenario.
\<close>

definition scenario_app :: app where
  "scenario_app =
     \<lparr> base_freq = 220, self_fs = 44100, n_harmonics = 1, jitter = 0,
       rolloff_coeff = 1, decay_time = 1, decay_exponent = 0,
       f0 = 440, B0 = 0, beta = 1 \<rparr>"

text \<open>
  What \<^verbatim>\<open>eval\<close> does on the expressions used below: the two literals are numbers,
  and a bare name such as \<^verbatim>\<open>abc\<close> raises \<^verbatim>\<open>NameError\<close>.
\<close>

definition scenario_eval :: "string \<Rightarrow> error + real" where
  "scenario_eval r =
     (if r = ''1.0'' then Inr 1 else if r = ''1.5'' then Inr (3 / 2) else Inl EvalError)"

text \<open>A generator that hands out the same unit sample every time.\<close>

definition const_rng :: "real \<Rightarrow> nat \<Rightarrow> real" where
  "const_rng u i = u"

text \<open>The state that the scenario builds.\<close>

definition scenario_session :: session where
  "scenario_session =
     \<lparr> fs = 44100, f_list = [220, 330], amp_list = [1, 1], tau_list = [1, 1],
       norm_c = 3 / 20, phases = [0, 0], t_cur = 0 \<rparr>"

section \<open>Auxiliary facts\<close>

subsection \<open>The remainder and the phases\<close>

lemma np_mod_range:
  assumes "0 < y"
  shows "0 \<le> np_mod x y" and "np_mod x y < y"
proof -
  have "of_int \<lfloor>x / y\<rfloor> * y \<le> (x / y) * y"
    using assms by (intro mult_right_mono) auto
  then show "0 \<le> np_mod x y"
    using assms by (simp add: np_mod_def)
  have "x / y < of_int \<lfloor>x / y\<rfloor> + 1" by linarith
  then have "(x / y) * y < (of_int \<lfloor>x / y\<rfloor> + 1) * y"
    using assms by (intro mult_strict_right_mono) auto
  then show "np_mod x y < y"
    using assms by (simp add: np_mod_def algebra_simps)
qed

lemma np_mod_add:
  assumes "y \<noteq> 0"
  shows "np_mod (np_mod a y + b) y = np_mod (a + b) y"
proof -
  define k where "k = \<lfloor>a / y\<rfloor>"
  have e: "np_mod a y + b = (a + b) - of_int k * y"
    by (simp add: np_mod_def k_def)
  have "((a + b) - of_int k * y) / y = (a + b) / y - of_int k"
    using assms by (simp add: diff_divide_distrib)
  then have "\<lfloor>((a + b) - of_int k * y) / y\<rfloor> = \<lfloor>(a + b) / y\<rfloor> - k"
    by simp
  then have "np_mod ((a + b) - of_int k * y) y
             = (a + b) - of_int k * y - of_int (\<lfloor>(a + b) / y\<rfloor> - k) * y"
    by (simp only: np_mod_def)
  also have "\<dots> = np_mod (a + b) y"
    by (simp add: np_mod_def algebra_simps)
  finally show ?thesis
    by (simp only: e)
qed

lemma sin_np_mod: "sin (np_mod x (2 * pi) + z) = sin (x + z)"
proof -
  have "np_mod x (2 * pi) + z = (x + z) + (2 * pi) * of_int (- \<lfloor>x / (2 * pi)\<rfloor>)"
    by (simp add: np_mod_def algebra_simps)
  then show ?thesis
    by (simp only: sin_add [of "x + z"] sin_int_2pin cos_int_2pin mult_1_right mult_zero_right add_0_right)
qed

lemma partial_terms_shift:
  "map (partial_term (tc + dt) t)
     (zip F (zip A (zip T
        (map (\<lambda>ph. np_mod ph (2 * pi)) (map2 (\<lambda>ph f. ph + 2 * pi * f * dt) P F)))))
   = map (partial_term tc (t + dt)) (zip F (zip A (zip T P)))"
proof (rule nth_equalityI)
  show "length (map (partial_term (tc + dt) t)
     (zip F (zip A (zip T
        (map (\<lambda>ph. np_mod ph (2 * pi)) (map2 (\<lambda>ph f. ph + 2 * pi * f * dt) P F))))))
   = length (map (partial_term tc (t + dt)) (zip F (zip A (zip T P))))"
    by simp
next
  fix i
  assume "i < length (map (partial_term (tc + dt) t)
     (zip F (zip A (zip T
        (map (\<lambda>ph. np_mod ph (2 * pi)) (map2 (\<lambda>ph f. ph + 2 * pi * f * dt) P F))))))"
  then have i: "i < length F" "i < length A" "i < length T" "i < length P"
    by simp_all
  have "P ! i + 2 * pi * F ! i * dt + 2 * pi * F ! i * t = P ! i + 2 * pi * F ! i * (t + dt)"
    by (simp add: algebra_simps)
  then have "sin (np_mod (P ! i + 2 * pi * F ! i * dt) (2 * pi) + 2 * pi * F ! i * t)
        = sin (P ! i + 2 * pi * F ! i * (t + dt))"
    by (simp only: sin_np_mod)
  moreover have "env (T ! i) (tc + dt + t) = env (T ! i) (tc + (t + dt))"
    by (simp add: ac_simps)
  ultimately have "partial_term (tc + dt) t
            (F ! i, A ! i, T ! i, np_mod (P ! i + 2 * pi * F ! i * dt) (2 * pi))
        = partial_term tc (t + dt) (F ! i, A ! i, T ! i, P ! i)"
    by (simp only: partial_term_def prod.case)
  then show "map (partial_term (tc + dt) t)
     (zip F (zip A (zip T
        (map (\<lambda>ph. np_mod ph (2 * pi)) (map2 (\<lambda>ph f. ph + 2 * pi * f * dt) P F))))) ! i
   = map (partial_term tc (t + dt)) (zip F (zip A (zip T P))) ! i"
    using i by simp
qed

lemma advance_twice:
  "np_mod (np_mod (p + 2 * pi * f * dt) (2 * pi) + 2 * pi * f * dt) (2 * pi)
   = np_mod (p + 2 * pi * f * (dt + dt)) (2 * pi)"
proof -
  have e: "p + 2 * pi * f * dt + 2 * pi * f * dt = p + 2 * pi * f * (dt + dt)"
    by (simp add: algebra_simps)
  have nz: "2 * pi \<noteq> (0::real)" by simp
  have "np_mod (np_mod (p + 2 * pi * f * dt) (2 * pi) + 2 * pi * f * dt) (2 * pi)
        = np_mod (p + 2 * pi * f * dt + 2 * pi * f * dt) (2 * pi)"
    by (rule np_mod_add [OF nz])
  then show ?thesis
    by (simp only: e)
qed

lemma phases_twice:
  "map (\<lambda>ph. np_mod ph (2 * pi))
     (map2 (\<lambda>ph f. ph + 2 * pi * f * dt)
        (map (\<lambda>ph. np_mod ph (2 * pi)) (map2 (\<lambda>ph f. ph + 2 * pi * f * dt) P F)) F)
   = map (\<lambda>ph. np_mod ph (2 * pi)) (map2 (\<lambda>ph f. ph + 2 * pi * f * (dt + dt)) P F)"
  by (rule nth_equalityI) (simp_all add: advance_twice)

subsection \<open>One call of the callback\<close>

lemma callback_Inr:
  "fs s \<noteq> 0 \<Longrightarrow>
     callback s n = Inr (map (\<lambda>i. sample s (real i / of_int (fs s))) [0..<n],
                         advance s (real n / of_int (fs s)))"
  by (simp add: callback_def Let_def comp_def)

lemma sample_advance: "sample (advance s dt) t = sample s (t + dt)"
  by (simp add: sample_def advance_def partial_terms_shift del: map_map)

lemma advance_advance: "advance (advance s dt) dt = advance s (dt + dt)"
  by (simp add: advance_def phases_twice add.assoc del: map_map)

lemma fs_advance: "fs (advance s dt) = fs s"
  by (simp add: advance_def)

lemma block_split:
  "map (\<lambda>i. sample s (real i / c)) [0..<2 * n]
   = map (\<lambda>i. sample s (real i / c)) [0..<n]
     @ map (\<lambda>i. sample (advance s (real n / c)) (real i / c)) [0..<n]"
proof -
  have "[0..<2 * n] = [0..<n] @ map (\<lambda>i. i + n) [0..<n]"
    using upt_add_eq_append [of 0 n n] by (simp add: map_add_upt mult_2)
  then show ?thesis
    by (simp add: sample_advance comp_def add_divide_distrib)
qed

lemma two_blocks:
  assumes "fs s \<noteq> 0"
  shows "stream_blocks s [n, n] = stream_blocks s [2 * n]"
proof -
  let ?c = "real_of_int (fs s)"
  have "real (2 * n) / ?c = real n / ?c + real n / ?c"
    by (simp add: add_divide_distrib)
  then show ?thesis
    using assms
    by (simp add: callback_Inr fs_advance advance_advance block_split)
qed

lemma phases_advance_range:
  "ph \<in> set (phases (advance s dt)) \<Longrightarrow> 0 \<le> ph \<and> ph < 2 * pi"
  by (auto simp: advance_def np_mod_range)

lemma aligned_advance: "aligned s \<Longrightarrow> aligned (advance s dt)"
  by (simp add: aligned_def advance_def)

lemma frame_advance: "advance s dt = s \<lparr> phases := phases (advance s dt), t_cur := t_cur (advance s dt) \<rparr>"
  by (simp add: advance_def)

lemma stream_blocks_Inr:
  "fs s \<noteq> 0 \<Longrightarrow>
     \<exists>outs s'. stream_blocks s ns = Inr (outs, s') \<and>
        length outs = sum_list ns \<and>
        s' = s \<lparr> phases := phases s', t_cur := t_cur s' \<rparr> \<and>
        t_cur s' = t_cur s + real (sum_list ns) / of_int (fs s) \<and>
        (ns \<noteq> [] \<longrightarrow> (\<forall>ph \<in> set (phases s'). 0 \<le> ph \<and> ph < 2 * pi))"
proof (induction ns arbitrary: s)
  case Nil
  then show ?case by simp
next
  case (Cons n ns)
  let ?s1 = "advance s (real n / of_int (fs s))"
  have c: "callback s n = Inr (map (\<lambda>i. sample s (real i / of_int (fs s))) [0..<n], ?s1)"
    using Cons.prems by (rule callback_Inr)
  have "fs ?s1 \<noteq> 0" using Cons.prems by (simp add: fs_advance)
  from Cons.IH [OF this] obtain outs s' where
    r: "stream_blocks ?s1 ns = Inr (outs, s')"
    and l: "length outs = sum_list ns"
    and f: "s' = ?s1 \<lparr> phases := phases s', t_cur := t_cur s' \<rparr>"
    and t: "t_cur s' = t_cur ?s1 + real (sum_list ns) / of_int (fs ?s1)"
    and p: "ns \<noteq> [] \<longrightarrow> (\<forall>ph \<in> set (phases s'). 0 \<le> ph \<and> ph < 2 * pi)"
    by blast
  have f': "s' = s \<lparr> phases := phases s', t_cur := t_cur s' \<rparr>"
    using f by (simp add: advance_def)
  have t': "t_cur s' = t_cur s + real (sum_list (n # ns)) / of_int (fs s)"
    using t by (simp add: advance_def add_divide_distrib)
  have p': "\<forall>ph \<in> set (phases s'). 0 \<le> ph \<and> ph < 2 * pi"
  proof (cases "ns = []")
    case True
    with r have "s' = ?s1" by simp
    then show ?thesis using phases_advance_range by blast
  next
    case False
    with p show ?thesis by simp
  qed
  show ?case
    using c r l f' t' p' by simp
qed

subsection \<open>Lists\<close>

lemma those_Some: "those xs = Some ys \<Longrightarrow> xs = map Some ys"
  by (induction xs arbitrary: ys) (auto split: option.splits)

lemma those_map_Some: "those (map Some ys) = Some ys"
  by (induction ys) auto

lemma concat_nth_uniform:
  "\<forall>row \<in> set rows. length row = n \<Longrightarrow> i < length rows \<Longrightarrow> j < n
     \<Longrightarrow> concat rows ! (i * n + j) = rows ! i ! j"
proof (induction rows arbitrary: i)
  case Nil
  then show ?case by simp
next
  case (Cons row rows)
  show ?case
  proof (cases i)
    case 0
    with Cons.prems show ?thesis by (simp add: nth_append)
  next
    case (Suc i')
    with Cons.prems have "concat rows ! (i' * n + j) = rows ! i' ! j"
      by (intro Cons.IH) auto
    with Suc Cons.prems show ?thesis by (simp add: nth_append)
  qed
qed

lemma length_concat_uniform:
  "\<forall>row \<in> set rows. length row = n \<Longrightarrow> length (concat rows) = length rows * n"
  by (induction rows) auto

lemma length_arange1: "length (arange1 n) = nat n"
  by (simp add: arange1_def)

lemma nth_arange1: "j < nat n \<Longrightarrow> arange1 n ! j = real (Suc j)"
  by (simp add: arange1_def)


lemma all_partials_nth:
  "all_partials self ev rng c rs = Inr rows \<Longrightarrow>
     length rows = length rs \<and>
     (\<forall>i<length rs. ratio_partials self ev rng (c + i * step self) (rs ! i) = Inr (rows ! i))"
proof (induction rs arbitrary: c rows)
  case Nil
  then show ?case by simp
next
  case (Cons r rs)
  from Cons.prems obtain row rows' where
    row: "ratio_partials self ev rng c r = Inr row"
    and rest: "all_partials self ev rng (c + step self) rs = Inr rows'"
    and rows: "rows = row # rows'"
    by (auto split: sum.splits prod.splits)
  from Cons.IH [OF rest] have
    len: "length rows' = length rs"
    and nth: "\<And>i. i < length rs \<Longrightarrow>
        ratio_partials self ev rng (c + step self + i * step self) (rs ! i) = Inr (rows' ! i)"
    by auto
  show ?case
  proof (intro conjI allI impI)
    show "length rows = length (r # rs)" using len rows by simp
  next
    fix i assume "i < length (r # rs)"
    then show "ratio_partials self ev rng (c + i * step self) ((r # rs) ! i) = Inr (rows ! i)"
      using row rows nth by (cases i) (auto simp: add.assoc)
  qed
qed




subsection \<open>The partials built by the loop\<close>

lemma stretched_Some:
  "stretched pitch B ks = Some fk \<Longrightarrow> ks \<noteq> [] \<Longrightarrow>
     \<bar>pitch\<bar> \<le> float_max \<and>
     (\<exists>b. B = Some b \<and> (\<forall>k \<in> set ks. 0 \<le> 1 + b * k\<^sup>2) \<and>
         fk = map (\<lambda>k. pitch * k * sqrt (1 + b * k\<^sup>2)) ks)"
  by (cases B) (auto simp: stretched_def not_less split: if_splits)

lemma stretched_length: "stretched pitch B ks = Some fk \<Longrightarrow> length fk = length ks"
  by (cases B) (auto simp: stretched_def split: if_splits)

lemma nth_uniform: "j < n \<Longrightarrow> uniform rng c lo hi n ! j = lo + (hi - lo) * rng (c + j)"
  by (simp add: uniform_def)

lemma length_uniform: "length (uniform rng c lo hi n) = n"
  by (simp add: uniform_def)

lemma ratio_partials_Inr:
  assumes "ratio_partials self ev rng c r = Inr (fo, a, t)"
  shows "a = map (\<lambda>k. 1 / (k powr rolloff_coeff self)) (arange1 (n_harmonics self))"
    and "t = map (\<lambda>k. decay_time self / (k powr decay_exponent self)) (arange1 (n_harmonics self))"
    and "\<exists>m B. ev r = Inr m \<and> calc_B self (base_freq self * m) = Inr B \<and>
           fo = map_option
                  (\<lambda>fk. if 0 < jitter self
                        then map2 (+) fk (uniform rng c (- jitter self) (jitter self) (length fk))
                        else fk)
                  (stretched (base_freq self * m) B (arange1 (n_harmonics self)))"
  using assms
  by (auto simp: ratio_partials_def Let_def option.map_ident split: sum.splits if_splits)

lemma ratio_partials_length:
  assumes "ratio_partials self ev rng c r = Inr (Some fk, a, t)"
  shows "length fk = nat (n_harmonics self)"
proof -
  let ?ks = "arange1 (n_harmonics self)"
  from ratio_partials_Inr(3) [OF assms] obtain m B where
    fo: "Some fk = map_option
                  (\<lambda>fk. if 0 < jitter self
                        then map2 (+) fk (uniform rng c (- jitter self) (jitter self) (length fk))
                        else fk)
                  (stretched (base_freq self * m) B ?ks)"
    by blast
  from fo obtain gk where
    gk: "stretched (base_freq self * m) B ?ks = Some gk"
    and fk: "fk = (if 0 < jitter self
                   then map2 (+) gk (uniform rng c (- jitter self) (jitter self) (length gk))
                   else gk)"
    by (cases "stretched (base_freq self * m) B ?ks") auto
  have "length gk = nat (n_harmonics self)"
    using stretched_length [OF gk] by (simp add: length_arange1)
  then show ?thesis
    using fk by (simp add: length_uniform)
qed

lemma ratio_partials_freq:
  assumes "ratio_partials self ev rng c r = Inr (Some fk, a, t)"
    and "0 < nat (n_harmonics self)"
  shows "\<exists>m b. ev r = Inr m \<and> calc_B self (base_freq self * m) = Inr (Some b) \<and>
           \<bar>base_freq self * m\<bar> \<le> float_max \<and>
           (\<forall>j < nat (n_harmonics self).
              0 \<le> 1 + b * (real (Suc j))\<^sup>2 \<and>
              fk ! j = base_freq self * m * real (Suc j) * sqrt (1 + b * (real (Suc j))\<^sup>2)
                       + (if 0 < jitter self
                          then - jitter self + (jitter self - - jitter self) * rng (c + j)
                          else 0))"
proof -
  let ?ks = "arange1 (n_harmonics self)"
  have ne: "?ks \<noteq> []"
    using assms(2) length_arange1 [of "n_harmonics self"] by auto
  from ratio_partials_Inr(3) [OF assms(1)] obtain m B where
    m: "ev r = Inr m" and B: "calc_B self (base_freq self * m) = Inr B"
    and fo: "Some fk = map_option
                  (\<lambda>fk. if 0 < jitter self
                        then map2 (+) fk (uniform rng c (- jitter self) (jitter self) (length fk))
                        else fk)
                  (stretched (base_freq self * m) B ?ks)"
    by blast
  from fo obtain gk where
    gk: "stretched (base_freq self * m) B ?ks = Some gk"
    and fk: "fk = (if 0 < jitter self
                   then map2 (+) gk (uniform rng c (- jitter self) (jitter self) (length gk))
                   else gk)"
    by (cases "stretched (base_freq self * m) B ?ks") auto
  from stretched_Some [OF gk ne] obtain b where
    pm: "\<bar>base_freq self * m\<bar> \<le> float_max"
    and b: "B = Some b" and nn: "\<forall>k \<in> set ?ks. 0 \<le> 1 + b * k\<^sup>2"
    and gk': "gk = map (\<lambda>k. base_freq self * m * k * sqrt (1 + b * k\<^sup>2)) ?ks"
    by blast
  have lg: "length gk = nat (n_harmonics self)"
    using gk' by (simp add: length_arange1)
  have "\<forall>j < nat (n_harmonics self).
              0 \<le> 1 + b * (real (Suc j))\<^sup>2 \<and>
              fk ! j = base_freq self * m * real (Suc j) * sqrt (1 + b * (real (Suc j))\<^sup>2)
                       + (if 0 < jitter self
                          then - jitter self + (jitter self - - jitter self) * rng (c + j)
                          else 0)"
  proof (intro allI impI)
    fix j assume j: "j < nat (n_harmonics self)"
    then have k: "?ks ! j = real (Suc j)" by (rule nth_arange1)
    have "?ks ! j \<in> set ?ks" using j by (simp add: length_arange1)
    with nn k have r: "0 \<le> 1 + b * (real (Suc j))\<^sup>2" by metis
    have g: "gk ! j = base_freq self * m * real (Suc j) * sqrt (1 + b * (real (Suc j))\<^sup>2)"
      using gk' j k by (simp add: length_arange1)
    have "fk ! j = gk ! j + (if 0 < jitter self
                          then - jitter self + (jitter self - - jitter self) * rng (c + j)
                          else 0)"
      using fk j lg by (simp add: length_uniform nth_uniform)
    with g r show "0 \<le> 1 + b * (real (Suc j))\<^sup>2 \<and>
              fk ! j = base_freq self * m * real (Suc j) * sqrt (1 + b * (real (Suc j))\<^sup>2)
                       + (if 0 < jitter self
                          then - jitter self + (jitter self - - jitter self) * rng (c + j)
                          else 0)"
      by simp
  qed
  with m B b pm show ?thesis by blast
qed

lemma play_unfold:
  "play self ev rng ratios =
     (case all_partials self ev rng 0 ratios of
        Inl (e, rows) \<Rightarrow> Inl e
      | Inr rows \<Rightarrow>
          if rows = [] then Inl ValueError
          else
            let amps = concat (map (\<lambda>(f, a, t). a) rows);
                taus = concat (map (\<lambda>(f, a, t). t) rows)
            in case those (map (\<lambda>(f, a, t). f) rows) of
                 None \<Rightarrow> Inr None
               | Some fss \<Rightarrow>
                   if sum_list amps = 0 then Inr None
                   else Inr (Some \<lparr> fs = self_fs self,
                                    f_list = concat fss,
                                    amp_list = amps,
                                    tau_list = taus,
                                    norm_c = 0.3 / sum_list amps,
                                    phases = map (\<lambda>_. 0) (concat fss),
                                    t_cur = 0 \<rparr>))"
  by (simp add: play_def build_partials_def Let_def split: sum.splits prod.splits option.splits)

lemma play_SomeD:
  assumes "play self ev rng rs = Inr (Some s)"
  shows "\<exists>rows fss. all_partials self ev rng 0 rs = Inr rows \<and> rows \<noteq> [] \<and>
           map (\<lambda>(f, a, t). f) rows = map Some fss \<and>
           sum_list (concat (map (\<lambda>(f, a, t). a) rows)) \<noteq> 0 \<and>
           s = \<lparr> fs = self_fs self,
                 f_list = concat fss,
                 amp_list = concat (map (\<lambda>(f, a, t). a) rows),
                 tau_list = concat (map (\<lambda>(f, a, t). t) rows),
                 norm_c = 0.3 / sum_list (concat (map (\<lambda>(f, a, t). a) rows)),
                 phases = map (\<lambda>_. 0) (concat fss),
                 t_cur = 0 \<rparr>"
proof -
  from assms obtain rows where
    rows: "all_partials self ev rng 0 rs = Inr rows"
    by (cases "all_partials self ev rng 0 rs") (auto simp: play_unfold)
  from assms rows have ne: "rows \<noteq> []"
    by (auto simp: play_unfold)
  from assms rows ne obtain fss where
    fss: "those (map (\<lambda>(f, a, t). f) rows) = Some fss"
    by (cases "those (map (\<lambda>(f, a, t). f) rows)") (auto simp: play_unfold Let_def)
  have m: "map (\<lambda>(f, a, t). f) rows = map Some fss"
    using fss by (rule those_Some)
  from assms rows ne fss have
    "sum_list (concat (map (\<lambda>(f, a, t). a) rows)) \<noteq> 0 \<and>
     s = \<lparr> fs = self_fs self,
                 f_list = concat fss,
                 amp_list = concat (map (\<lambda>(f, a, t). a) rows),
                 tau_list = concat (map (\<lambda>(f, a, t). t) rows),
                 norm_c = 0.3 / sum_list (concat (map (\<lambda>(f, a, t). a) rows)),
                 phases = map (\<lambda>_. 0) (concat fss),
                 t_cur = 0 \<rparr>"
    by (auto simp: play_unfold Let_def split: if_splits)
  with rows ne m show ?thesis by blast
qed

lemma play_structure:
  assumes "play self ev rng rs = Inr (Some s)"
  shows "\<exists>fss. f_list s = concat fss \<and> length fss = length rs \<and>
           (\<forall>i < length rs. \<exists>a t.
               ratio_partials self ev rng (i * step self) (rs ! i) = Inr (Some (fss ! i), a, t)) \<and>
           amp_list s = concat (replicate (length rs)
              (map (\<lambda>k. 1 / (k powr rolloff_coeff self)) (arange1 (n_harmonics self)))) \<and>
           tau_list s = concat (replicate (length rs)
              (map (\<lambda>k. decay_time self / (k powr decay_exponent self))
                 (arange1 (n_harmonics self))))"
proof -
  from play_SomeD [OF assms] obtain rows fss where
    rows: "all_partials self ev rng 0 rs = Inr rows"
    and m: "map (\<lambda>(f, a, t). f) rows = map Some fss"
    and s: "s = \<lparr> fs = self_fs self,
                 f_list = concat fss,
                 amp_list = concat (map (\<lambda>(f, a, t). a) rows),
                 tau_list = concat (map (\<lambda>(f, a, t). t) rows),
                 norm_c = 0.3 / sum_list (concat (map (\<lambda>(f, a, t). a) rows)),
                 phases = map (\<lambda>_. 0) (concat fss),
                 t_cur = 0 \<rparr>"
    by blast
  from all_partials_nth [OF rows] have
    len: "length rows = length rs"
    and nth: "\<And>i. i < length rs \<Longrightarrow>
                ratio_partials self ev rng (i * step self) (rs ! i) = Inr (rows ! i)"
    by auto
  have lf: "length fss = length rs"
    using m len by (metis length_map)
  have row: "\<exists>a t. rows ! i = (Some (fss ! i), a, t)" if "i < length rs" for i
  proof -
    from that len lf have "map (\<lambda>(f, a, t). f) rows ! i = map Some fss ! i"
      using m by simp
    with that len lf show ?thesis
      by (cases "rows ! i") simp
  qed
  have amps: "map (\<lambda>(f, a, t). a) rows = replicate (length rs)
              (map (\<lambda>k. 1 / (k powr rolloff_coeff self)) (arange1 (n_harmonics self)))"
  proof (rule nth_equalityI)
    show "length (map (\<lambda>(f, a, t). a) rows) = length (replicate (length rs)
              (map (\<lambda>k. 1 / (k powr rolloff_coeff self)) (arange1 (n_harmonics self))))"
      using len by simp
  next
    fix i assume "i < length (map (\<lambda>(f, a, t). a) rows)"
    then have i: "i < length rs" using len by simp
    obtain f a t where r: "rows ! i = (f, a, t)" by (cases "rows ! i")
    with nth [OF i] have "ratio_partials self ev rng (i * step self) (rs ! i) = Inr (f, a, t)"
      by simp
    from ratio_partials_Inr(1) [OF this] r i len
    show "map (\<lambda>(f, a, t). a) rows ! i = replicate (length rs)
              (map (\<lambda>k. 1 / (k powr rolloff_coeff self)) (arange1 (n_harmonics self))) ! i"
      by simp
  qed
  have taus: "map (\<lambda>(f, a, t). t) rows = replicate (length rs)
              (map (\<lambda>k. decay_time self / (k powr decay_exponent self))
                 (arange1 (n_harmonics self)))"
  proof (rule nth_equalityI)
    show "length (map (\<lambda>(f, a, t). t) rows) = length (replicate (length rs)
              (map (\<lambda>k. decay_time self / (k powr decay_exponent self))
                 (arange1 (n_harmonics self))))"
      using len by simp
  next
    fix i assume "i < length (map (\<lambda>(f, a, t). t) rows)"
    then have i: "i < length rs" using len by simp
    obtain f a t where r: "rows ! i = (f, a, t)" by (cases "rows ! i")
    with nth [OF i] have "ratio_partials self ev rng (i * step self) (rs ! i) = Inr (f, a, t)"
      by simp
    from ratio_partials_Inr(2) [OF this] r i len
    show "map (\<lambda>(f, a, t). t) rows ! i = replicate (length rs)
              (map (\<lambda>k. decay_time self / (k powr decay_exponent self))
                 (arange1 (n_harmonics self))) ! i"
      by simp
  qed
  have "\<forall>i < length rs. \<exists>a t.
               ratio_partials self ev rng (i * step self) (rs ! i) = Inr (Some (fss ! i), a, t)"
    using nth row by metis
  with s lf amps taus show ?thesis
    by (intro exI [of _ fss]) simp
qed

lemma play_initial:
  assumes "play self ev rng rs = Inr (Some s)"
  shows "fs s = self_fs self" and "t_cur s = 0" and "phases s = map (\<lambda>_. 0) (f_list s)"
    and "norm_c s = 0.3 / sum_list (amp_list s)" and "sum_list (amp_list s) \<noteq> 0"
    and "rs \<noteq> []"
proof -
  from play_SomeD [OF assms] obtain rows fss where
    rows: "all_partials self ev rng 0 rs = Inr rows" and ne: "rows \<noteq> []"
    and nz: "sum_list (concat (map (\<lambda>(f, a, t). a) rows)) \<noteq> 0"
    and s: "s = \<lparr> fs = self_fs self,
                 f_list = concat fss,
                 amp_list = concat (map (\<lambda>(f, a, t). a) rows),
                 tau_list = concat (map (\<lambda>(f, a, t). t) rows),
                 norm_c = 0.3 / sum_list (concat (map (\<lambda>(f, a, t). a) rows)),
                 phases = map (\<lambda>_. 0) (concat fss),
                 t_cur = 0 \<rparr>"
    by blast
  show "fs s = self_fs self" "t_cur s = 0" "phases s = map (\<lambda>_. 0) (f_list s)"
    "norm_c s = 0.3 / sum_list (amp_list s)"
    using s by simp_all
  show "sum_list (amp_list s) \<noteq> 0" using s nz by simp
  show "rs \<noteq> []" using all_partials_nth [OF rows] ne by auto
qed

lemma play_lengths:
  assumes "play self ev rng rs = Inr (Some s)"
  shows "length (f_list s) = length rs * nat (n_harmonics self)"
    and "length (amp_list s) = length rs * nat (n_harmonics self)"
    and "length (tau_list s) = length rs * nat (n_harmonics self)"
    and "length (phases s) = length rs * nat (n_harmonics self)"
proof -
  from play_structure [OF assms] obtain fss where
    f: "f_list s = concat fss" and lf: "length fss = length rs"
    and r: "\<forall>i < length rs. \<exists>a t.
               ratio_partials self ev rng (i * step self) (rs ! i) = Inr (Some (fss ! i), a, t)"
    and a: "amp_list s = concat (replicate (length rs)
              (map (\<lambda>k. 1 / (k powr rolloff_coeff self)) (arange1 (n_harmonics self))))"
    and t: "tau_list s = concat (replicate (length rs)
              (map (\<lambda>k. decay_time self / (k powr decay_exponent self))
                 (arange1 (n_harmonics self))))"
    by blast
  have "\<forall>row \<in> set fss. length row = nat (n_harmonics self)"
  proof
    fix row assume "row \<in> set fss"
    then obtain i where i: "i < length rs" and row: "row = fss ! i"
      using lf by (metis in_set_conv_nth)
    from r i obtain a t where
      "ratio_partials self ev rng (i * step self) (rs ! i) = Inr (Some (fss ! i), a, t)"
      by blast
    from ratio_partials_length [OF this] row show "length row = nat (n_harmonics self)"
      by simp
  qed
  then show "length (f_list s) = length rs * nat (n_harmonics self)"
    using f lf length_concat_uniform [of fss "nat (n_harmonics self)"] by simp
  then show "length (phases s) = length rs * nat (n_harmonics self)"
    using play_initial(3) [OF assms] by simp
  show "length (amp_list s) = length rs * nat (n_harmonics self)"
    using a by (simp add: length_concat_uniform [where n = "nat (n_harmonics self)"] length_arange1)
  show "length (tau_list s) = length rs * nat (n_harmonics self)"
    using t by (simp add: length_concat_uniform [where n = "nat (n_harmonics self)"] length_arange1)
qed

lemma play_aligned: "play self ev rng rs = Inr (Some s) \<Longrightarrow> aligned s"
  by (simp add: aligned_def play_lengths)

lemma play_amp_tau_nth:
  assumes "play self ev rng rs = Inr (Some s)"
    and "i < length rs" and "j < nat (n_harmonics self)"
  shows "amp_list s ! (i * nat (n_harmonics self) + j)
           = 1 / (real (Suc j) powr rolloff_coeff self)"
    and "tau_list s ! (i * nat (n_harmonics self) + j)
           = decay_time self / (real (Suc j) powr decay_exponent self)"
proof -
  from play_structure [OF assms(1)] obtain fss where
    a: "amp_list s = concat (replicate (length rs)
              (map (\<lambda>k. 1 / (k powr rolloff_coeff self)) (arange1 (n_harmonics self))))"
    and t: "tau_list s = concat (replicate (length rs)
              (map (\<lambda>k. decay_time self / (k powr decay_exponent self))
                 (arange1 (n_harmonics self))))"
    by blast
  show "amp_list s ! (i * nat (n_harmonics self) + j)
           = 1 / (real (Suc j) powr rolloff_coeff self)"
    using assms(2,3)
    by (simp add: a concat_nth_uniform length_arange1 nth_arange1)
  show "tau_list s ! (i * nat (n_harmonics self) + j)
           = decay_time self / (real (Suc j) powr decay_exponent self)"
    using assms(2,3)
    by (simp add: t concat_nth_uniform length_arange1 nth_arange1)
qed

lemma play_freq_nth:
  assumes "play self ev rng rs = Inr (Some s)"
    and "i < length rs" and "j < nat (n_harmonics self)"
  shows "\<exists>m b. ev (rs ! i) = Inr m \<and> calc_B self (base_freq self * m) = Inr (Some b) \<and>
           \<bar>base_freq self * m\<bar> \<le> float_max \<and>
           0 \<le> 1 + b * (real (Suc j))\<^sup>2 \<and>
           f_list s ! (i * nat (n_harmonics self) + j)
             = base_freq self * m * real (Suc j) * sqrt (1 + b * (real (Suc j))\<^sup>2)
               + (if 0 < jitter self
                  then - jitter self + (jitter self - - jitter self)
                         * rng (i * nat (n_harmonics self) + j)
                  else 0)"
proof -
  from play_structure [OF assms(1)] obtain fss where
    f: "f_list s = concat fss" and lf: "length fss = length rs"
    and r: "\<forall>i < length rs. \<exists>a t.
               ratio_partials self ev rng (i * step self) (rs ! i) = Inr (Some (fss ! i), a, t)"
    by blast
  have pos: "0 < nat (n_harmonics self)" using assms(3) by simp
  have "\<forall>row \<in> set fss. length row = nat (n_harmonics self)"
  proof
    fix row assume "row \<in> set fss"
    then obtain i where i: "i < length rs" and row: "row = fss ! i"
      using lf by (metis in_set_conv_nth)
    from r i obtain a t where
      "ratio_partials self ev rng (i * step self) (rs ! i) = Inr (Some (fss ! i), a, t)"
      by blast
    from ratio_partials_length [OF this] row show "length row = nat (n_harmonics self)"
      by simp
  qed
  then have n: "f_list s ! (i * nat (n_harmonics self) + j) = fss ! i ! j"
    using f lf assms(2,3) by (simp add: concat_nth_uniform)
  from r assms(2) obtain a t where
    "ratio_partials self ev rng (i * step self) (rs ! i) = Inr (Some (fss ! i), a, t)"
    by blast
  from ratio_partials_freq [OF this pos] obtain m b where
    m: "ev (rs ! i) = Inr m" and b: "calc_B self (base_freq self * m) = Inr (Some b)"
    and pm: "\<bar>base_freq self * m\<bar> \<le> float_max"
    and v: "0 \<le> 1 + b * (real (Suc j))\<^sup>2 \<and>
              fss ! i ! j = base_freq self * m * real (Suc j) * sqrt (1 + b * (real (Suc j))\<^sup>2)
                       + (if 0 < jitter self
                          then - jitter self + (jitter self - - jitter self)
                                 * rng (i * step self + j)
                          else 0)"
    using assms(3) by blast
  have "(if 0 < jitter self
         then - jitter self + (jitter self - - jitter self) * rng (i * step self + j)
         else 0)
        = (if 0 < jitter self
           then - jitter self + (jitter self - - jitter self)
                  * rng (i * nat (n_harmonics self) + j)
           else 0)"
    by (simp add: step_def)
  with v n have "0 \<le> 1 + b * (real (Suc j))\<^sup>2 \<and>
           f_list s ! (i * nat (n_harmonics self) + j)
             = base_freq self * m * real (Suc j) * sqrt (1 + b * (real (Suc j))\<^sup>2)
               + (if 0 < jitter self
                  then - jitter self + (jitter self - - jitter self)
                         * rng (i * nat (n_harmonics self) + j)
                  else 0)"
    by simp
  with m b pm show ?thesis by blast
qed

subsection \<open>When the build returns a state\<close>



lemma float_max_ge: "2 ^ 1023 \<le> float_max"
proof -
  have "(1::real) \<le> 2 - 1 / 2 ^ 52" by simp
  then have "1 * (2::real) ^ 1023 \<le> (2 - 1 / 2 ^ 52) * 2 ^ 1023"
    by (intro mult_right_mono) simp_all
  then show ?thesis by (simp only: float_max_def mult_1)
qed


lemma float_max_large: "1000000 < float_max"
proof -
  have "(1000000::real) < 2 ^ 20" by simp
  also have "(2::real) ^ 20 \<le> 2 ^ 1023" by (rule power_increasing) simp_all
  finally show ?thesis using float_max_ge by simp
qed


lemma float_max_less: "x \<le> 1000000 \<Longrightarrow> (float_max < x) = False"
  using float_max_large by simp









subsection \<open>The build without jitter, the scenario, and small facts\<close>

lemma scenario_pass:
  "ratio_partials scenario_app scenario_eval rng c ''1.0'' = Inr (Some [220], [1], [1])"
  "ratio_partials scenario_app scenario_eval rng c ''1.5'' = Inr (Some [330], [1], [1])"
  using float_max_large
  by (simp_all add: ratio_partials_def scenario_app_def scenario_eval_def calc_B_def
        float_pow_def arange1_def stretched_def Let_def float_max_less)

lemma scenario_play:
  "play scenario_app scenario_eval rng [''1.0'', ''1.5''] = Inr (Some scenario_session)"
  by (simp add: play_unfold scenario_pass scenario_session_def Let_def)
     (simp add: scenario_app_def)

lemma scenario_session_ok: "fs scenario_session \<noteq> 0" "aligned scenario_session"
  by (simp_all add: scenario_session_def aligned_def)

lemma ratio_partials_no_jitter:
  assumes "jitter self \<le> 0"
  shows "ratio_partials self ev rng c r = ratio_partials self ev rng' c' r"
proof -
  have "\<not> 0 < jitter self" using assms by simp
  then show ?thesis
    by (simp add: ratio_partials_def Let_def split: sum.splits)
qed

lemma all_partials_no_jitter:
  "jitter self \<le> 0 \<Longrightarrow> all_partials self ev rng c rs = all_partials self ev rng' c' rs"
proof (induction rs arbitrary: c c')
  case Nil
  then show ?case by simp
next
  case (Cons r rs)
  from Cons.IH [OF Cons.prems, of "c + step self" "c' + step self"]
    ratio_partials_no_jitter [OF Cons.prems, of ev rng c r rng' c']
  show ?case by (simp split: sum.splits prod.splits)
qed

lemma play_no_jitter:
  "jitter self \<le> 0 \<Longrightarrow> play self ev rng rs = play self ev rng' rs"
  by (simp add: play_def build_partials_def all_partials_no_jitter [of self ev rng 0 rs rng' 0])

lemma map_map2: "map f (map2 g xs ys) = map2 (\<lambda>x y. f (g x y)) xs ys"
  by (simp add: comp_def case_prod_unfold)


lemma concat_replicate_single: "concat (replicate n [x]) = replicate n x"
  by (induction n) auto

lemma stream_blocks_f_list:
  assumes "stream_blocks s ns = Inr (outs, s')"
  shows "f_list s' = f_list s"
proof (cases "fs s = 0")
  case True
  show ?thesis
  proof (cases ns)
    case Nil
    with assms show ?thesis by simp
  next
    case (Cons n ns')
    have "callback s n = Inl ZeroDivisionError"
      using True by (simp add: callback_def)
    then have "stream_blocks s (n # ns') = Inl ZeroDivisionError"
      by simp
    with assms Cons show ?thesis by simp
  qed
next
  case False
  from stream_blocks_Inr [OF False, of ns] obtain outs2 s2 where
    r: "stream_blocks s ns = Inr (outs2, s2)"
    and f: "s2 = s \<lparr> phases := phases s2, t_cur := t_cur s2 \<rparr>"
    by blast
  have "f_list s2 = f_list s"
    using arg_cong [OF f, of f_list] by simp
  moreover from r assms have "s2 = s'" by simp
  ultimately show ?thesis by simp
qed






lemma evals:
  "play (scenario_app \<lparr> n_harmonics := 2, decay_exponent := 1 \<rparr>) scenario_eval rng [''1.0'']
   = Inr (Some \<lparr> fs = 44100, f_list = [220, 440], amp_list = [1, 1 / 2], tau_list = [1, 1 / 2],
                   norm_c = 1 / 5, phases = [0, 0], t_cur = 0 \<rparr>)"
  "play (scenario_app \<lparr> jitter := 1 \<rparr>) scenario_eval (const_rng (3 / 4)) [''1.0'']
   = Inr (Some \<lparr> fs = 44100, f_list = [441 / 2], amp_list = [1], tau_list = [1],
                   norm_c = 3 / 10, phases = [0], t_cur = 0 \<rparr>)"
  using float_max_large
  by (simp_all add: play_unfold ratio_partials_def scenario_app_def scenario_eval_def calc_B_def
        float_pow_def arange1_def stretched_def Let_def uniform_def const_rng_def step_def
        upto.simps float_max_less)

lemma np_mod_congruent: "\<exists>z::int. np_mod x y = x - of_int z * y"
  by (intro exI [of _ "\<lfloor>x / y\<rfloor>"]) (simp add: np_mod_def)

lemma callback_congruence:
  assumes "fs s \<noteq> 0" and "aligned s"
  shows "\<exists>out s'. callback s n = Inr (out, s') \<and>
            length (phases s') = length (phases s) \<and>
            (\<forall>j < length (phases s).
               (\<exists>z::int. phases s' ! j
                  = phases s ! j + 2 * pi * f_list s ! j * (real n / of_int (fs s))
                    - of_int z * (2 * pi)) \<and>
               0 \<le> phases s' ! j \<and> phases s' ! j < 2 * pi) \<and>
            phases s' = map2 (\<lambda>ph f. np_mod (ph + 2 * pi * f * (real n / of_int (fs s))) (2 * pi))
                          (phases s) (f_list s) \<and>
            t_cur s' = t_cur s + real n / of_int (fs s) \<and>
            (\<forall>ph \<in> set (phases s'). 0 \<le> ph \<and> ph < 2 * pi)"
proof -
  let ?dt = "real n / of_int (fs s)"
  let ?s' = "advance s ?dt"
  have len: "length (phases s) = length (f_list s)"
    using assms(2) by (simp add: aligned_def)
  have l: "length (phases ?s') = length (phases s)"
    using len by (simp add: advance_def)
  have nth: "phases ?s' ! j = np_mod (phases s ! j + 2 * pi * f_list s ! j * ?dt) (2 * pi)"
    if "j < length (phases s)" for j
    using that len by (simp add: advance_def)
  have c: "\<forall>j < length (phases s).
               (\<exists>z::int. phases ?s' ! j
                  = phases s ! j + 2 * pi * f_list s ! j * ?dt - of_int z * (2 * pi)) \<and>
               0 \<le> phases ?s' ! j \<and> phases ?s' ! j < 2 * pi"
  proof (intro allI impI)
    fix j assume j: "j < length (phases s)"
    have "0 < 2 * pi" by simp
    from np_mod_range [OF this, of "phases s ! j + 2 * pi * f_list s ! j * ?dt"]
      np_mod_congruent [of "phases s ! j + 2 * pi * f_list s ! j * ?dt" "2 * pi"]
    show "(\<exists>z::int. phases ?s' ! j
                  = phases s ! j + 2 * pi * f_list s ! j * ?dt - of_int z * (2 * pi)) \<and>
               0 \<le> phases ?s' ! j \<and> phases ?s' ! j < 2 * pi"
      unfolding nth [OF j] by blast
  qed
  have m: "phases ?s' = map2 (\<lambda>ph f. np_mod (ph + 2 * pi * f * ?dt) (2 * pi))
                          (phases s) (f_list s)"
    by (simp add: advance_def map_map2 del: map_map)
  have t: "t_cur ?s' = t_cur s + ?dt"
    by (simp add: advance_def)
  have r: "\<forall>ph \<in> set (phases ?s'). 0 \<le> ph \<and> ph < 2 * pi"
    using phases_advance_range by blast
  from l c m t r callback_Inr [OF assms(1), of n] show ?thesis by blast
qed

lemma stream_blocks_aligned:
  "fs s \<noteq> 0 \<Longrightarrow> aligned s \<Longrightarrow> stream_blocks s ns = Inr (outs, s') \<Longrightarrow>
     fs s' = fs s \<and> aligned s'"
proof (induction ns arbitrary: s outs)
  case Nil
  then show ?case by simp
next
  case (Cons n ns)
  let ?s1 = "advance s (real n / of_int (fs s))"
  have c: "callback s n = Inr (map (\<lambda>i. sample s (real i / of_int (fs s))) [0..<n], ?s1)"
    using Cons.prems(1) by (rule callback_Inr)
  have f1: "fs ?s1 \<noteq> 0" using Cons.prems(1) by (simp add: fs_advance)
  have a1: "aligned ?s1" using Cons.prems(2) by (rule aligned_advance)
  from Cons.prems(3) c obtain outs' where "stream_blocks ?s1 ns = Inr (outs', s')"
    by (auto split: sum.splits)
  from Cons.IH [OF f1 a1 this] show ?case by (simp add: fs_advance)
qed



section \<open>The partial set builder\<close>




text \<open>
  C5. In every state that the build returns, harmonic \<open>k\<close> of every ratio has the
  amplitude \<open>1 / k powr p\<close> and the decay constant \<open>tau0 / k powr d\<close>, with \<open>p\<close> the
  rolloff, \<open>tau0\<close> the decay time and \<open>d\<close> the decay exponent. For \<open>p > 0\<close> the
  amplitudes do not increase with \<open>k\<close>; for \<open>d > 0\<close> and \<open>tau0 > 0\<close> the decay
  constants strictly decrease with \<open>k\<close>. With one harmonic and \<open>d = 0\<close> every
  amplitude is 1 and every decay constant is \<open>tau0\<close>.
\<close>

theorem amplitude_and_decay:
  assumes "play self ev rng ratios = Inr (Some s)"
  shows
    "(\<forall>i < length ratios. \<forall>k. 1 \<le> k \<and> int k \<le> n_harmonics self \<longrightarrow>
        amp_list s ! (i * nat (n_harmonics self) + (k - 1)) = 1 / real k powr rolloff_coeff self \<and>
        tau_list s ! (i * nat (n_harmonics self) + (k - 1))
          = decay_time self / real k powr decay_exponent self) \<and>
     (0 < rolloff_coeff self \<longrightarrow>
        (\<forall>i < length ratios. \<forall>k k'. 1 \<le> k \<and> k \<le> k' \<and> int k' \<le> n_harmonics self \<longrightarrow>
           amp_list s ! (i * nat (n_harmonics self) + (k' - 1))
             \<le> amp_list s ! (i * nat (n_harmonics self) + (k - 1)))) \<and>
     (0 < decay_exponent self \<and> 0 < decay_time self \<longrightarrow>
        (\<forall>i < length ratios. \<forall>k k'. 1 \<le> k \<and> k < k' \<and> int k' \<le> n_harmonics self \<longrightarrow>
           tau_list s ! (i * nat (n_harmonics self) + (k' - 1))
             < tau_list s ! (i * nat (n_harmonics self) + (k - 1)))) \<and>
     (n_harmonics self = 1 \<and> decay_exponent self = 0 \<longrightarrow>
        amp_list s = replicate (length ratios) 1 \<and>
        tau_list s = replicate (length ratios) (decay_time self))"
proof -
  have v: "amp_list s ! (i * nat (n_harmonics self) + (k - 1)) = 1 / real k powr rolloff_coeff self"
    "tau_list s ! (i * nat (n_harmonics self) + (k - 1))
          = decay_time self / real k powr decay_exponent self"
    if "i < length ratios" "1 \<le> k" "int k \<le> n_harmonics self" for i k
  proof -
    from that have j: "k - 1 < nat (n_harmonics self)" and sk: "Suc (k - 1) = k" by auto
    show "amp_list s ! (i * nat (n_harmonics self) + (k - 1)) = 1 / real k powr rolloff_coeff self"
      using play_amp_tau_nth(1) [OF assms that(1) j] sk by simp
    show "tau_list s ! (i * nat (n_harmonics self) + (k - 1))
          = decay_time self / real k powr decay_exponent self"
      using play_amp_tau_nth(2) [OF assms that(1) j] sk by simp
  qed
  have a: "amp_list s ! (i * nat (n_harmonics self) + (k' - 1))
             \<le> amp_list s ! (i * nat (n_harmonics self) + (k - 1))"
    if "0 < rolloff_coeff self" "i < length ratios" "1 \<le> k" "k \<le> k'" "int k' \<le> n_harmonics self"
    for i k k'
  proof -
    have "real k powr rolloff_coeff self \<le> real k' powr rolloff_coeff self"
      using that by (intro powr_mono2) auto
    moreover have "0 < real k powr rolloff_coeff self" using that by simp
    ultimately have "1 / real k' powr rolloff_coeff self \<le> 1 / real k powr rolloff_coeff self"
      by (simp add: frac_le)
    then show ?thesis
      using v(1) [of i k] v(1) [of i k'] that by simp
  qed
  have t: "tau_list s ! (i * nat (n_harmonics self) + (k' - 1))
             < tau_list s ! (i * nat (n_harmonics self) + (k - 1))"
    if "0 < decay_exponent self" "0 < decay_time self" "i < length ratios"
      "1 \<le> k" "k < k'" "int k' \<le> n_harmonics self"
    for i k k'
  proof -
    have "real k powr decay_exponent self < real k' powr decay_exponent self"
      using that by (intro powr_less_mono2) auto
    moreover have "0 < real k powr decay_exponent self" using that by simp
    ultimately have "decay_time self / real k' powr decay_exponent self
                     < decay_time self / real k powr decay_exponent self"
      using that(2) by (simp add: frac_less2)
    then show ?thesis
      using v(2) [of i k] v(2) [of i k'] that by simp
  qed
  have o: "amp_list s = replicate (length ratios) 1 \<and>
        tau_list s = replicate (length ratios) (decay_time self)"
    if "n_harmonics self = 1" "decay_exponent self = 0"
    using play_structure [OF assms] that
    by (auto simp: arange1_def concat_replicate_single)
  from v a t o show ?thesis by blast
qed

theorem amplitude_and_decay_witness:
  "play (scenario_app \<lparr> n_harmonics := 2, decay_exponent := 1 \<rparr>) scenario_eval (const_rng 0)
     [''1.0'']
   = Inr (Some \<lparr> fs = 44100, f_list = [220, 440], amp_list = [1, 1 / 2], tau_list = [1, 1 / 2],
                   norm_c = 1 / 5, phases = [0, 0], t_cur = 0 \<rparr>) \<and>
   [1, 1 / 2 :: real] ! (0 * nat 2 + (2 - 1)) \<le> [1, 1 / 2] ! (0 * nat 2 + (1 - 1)) \<and>
   [1, 1 / 2 :: real] ! (0 * nat 2 + (2 - 1)) < [1, 1 / 2] ! (0 * nat 2 + (1 - 1)) \<and>
   play scenario_app scenario_eval (const_rng 0) [''1.0'', ''1.5''] = Inr (Some scenario_session) \<and>
   amp_list scenario_session = replicate 2 1 \<and> tau_list scenario_session = replicate 2 1"
  using evals(1) [of "const_rng 0"] amplitude_and_decay [OF evals(1) [of "const_rng 0"]]
    scenario_play [of "const_rng 0"] amplitude_and_decay [OF scenario_play [of "const_rng 0"]]
  by (simp add: scenario_app_def numeral_2_eq_2)

text \<open>
  C3. In every state that the build returns there is at least one partial, the
  normalization constant is 0.3 divided by the sum of the amplitudes, and the sum
  of the normalized amplitudes is at most 0.3. In the scenario (base frequency
  220, ratios \<^verbatim>\<open>1.0\<close> and \<^verbatim>\<open>1.5\<close>, one harmonic, rolloff 1) each of the two
  normalized amplitudes is 0.15.
\<close>

theorem normalization:
  assumes "play self ev rng ratios = Inr (Some s)"
  shows "amp_list s \<noteq> [] \<and>
         norm_c s = 0.3 / sum_list (amp_list s) \<and>
         (\<Sum>a\<leftarrow>amp_list s. a * norm_c s) \<le> 0.3 \<and>
         (base_freq self = 220 \<and> ratios = [''1.0'', ''1.5''] \<and> n_harmonics self = 1 \<and>
          rolloff_coeff self = 1
            \<longrightarrow> map (\<lambda>a. a * norm_c s) (amp_list s) = [0.15, 0.15])"
proof -
  note i = play_initial [OF assms]
  have ne: "amp_list s \<noteq> []" using i(5) by auto
  have "(\<Sum>a\<leftarrow>amp_list s. a * norm_c s) = sum_list (amp_list s) * norm_c s"
    by (simp add: sum_list_mult_const)
  also have "\<dots> = 0.3" using i(4,5) by simp
  finally have le: "(\<Sum>a\<leftarrow>amp_list s. a * norm_c s) \<le> 0.3" by simp
  have sc: "map (\<lambda>a. a * norm_c s) (amp_list s) = [0.15, 0.15]"
    if h: "ratios = [''1.0'', ''1.5'']" "n_harmonics self = 1"
  proof -
    from play_structure [OF assms] h have "amp_list s = [1, 1]"
      by (auto simp: arange1_def numeral_2_eq_2)
    with i(4) show ?thesis by simp
  qed
  from ne i(4) le sc show ?thesis by blast
qed

theorem normalization_witness:
  "play scenario_app scenario_eval (const_rng 0) [''1.0'', ''1.5''] = Inr (Some scenario_session) \<and>
   norm_c scenario_session = 0.3 / sum_list (amp_list scenario_session) \<and>
   (\<Sum>a\<leftarrow>amp_list scenario_session. a * norm_c scenario_session) \<le> 0.3 \<and>
   map (\<lambda>a. a * norm_c scenario_session) (amp_list scenario_session) = [0.15, 0.15]"
proof -
  have a: "play scenario_app scenario_eval (const_rng 0) [''1.0'', ''1.5'']
           = Inr (Some scenario_session)"
    by (rule scenario_play)
  have h: "base_freq scenario_app = 220 \<and> [''1.0'', ''1.5''] = [''1.0'', ''1.5''] \<and>
           n_harmonics scenario_app = 1 \<and> rolloff_coeff scenario_app = 1"
    by (simp add: scenario_app_def)
  from normalization [OF a] h a show ?thesis by blast
qed

text \<open>
  C9, amended. For \<open>jitter > 0\<close> and unit samples in \<open>[0, 1)\<close>, the frequency stored
  for partial \<open>j\<close> is the unperturbed frequency \<open>f_k\<close> plus the one perturbation
  \<open>- jitter + 2 jitter (rng j)\<close>, made from the unit sample of that partial alone; it
  lies in \<open>[f_k - jitter, f_k + jitter]\<close>. The frequencies are drawn in the build
  only: no sequence of blocks changes \<open>f_list\<close>. The code does not clamp: a stored
  frequency can be negative or zero.
\<close>

theorem jitter_once_per_build:
  assumes "0 < jitter self" and "\<forall>i. 0 \<le> rng i \<and> rng i < 1"
    and "play self ev rng ratios = Inr (Some s)"
  shows
    "(\<forall>i < length ratios. \<forall>k. 1 \<le> k \<and> int k \<le> n_harmonics self \<longrightarrow>
        (\<exists>m B. ev (ratios ! i) = Inr m \<and> calc_B self (base_freq self * m) = Inr (Some B) \<and>
           (let f_k = base_freq self * m * real k * sqrt (1 + B * (real k)\<^sup>2);
                j = i * nat (n_harmonics self) + (k - 1)
            in f_list s ! j = f_k + (- jitter self + 2 * jitter self * rng j) \<and>
               f_k - jitter self \<le> f_list s ! j \<and> f_list s ! j \<le> f_k + jitter self))) \<and>
     (\<forall>ns outs s'. stream_blocks s ns = Inr (outs, s') \<longrightarrow> f_list s' = f_list s)"
proof (intro conjI allI impI)
  fix i k assume i: "i < length ratios" and k: "1 \<le> k \<and> int k \<le> n_harmonics self"
  then have j: "k - 1 < nat (n_harmonics self)" and sk: "Suc (k - 1) = k" by auto
  let ?j = "i * nat (n_harmonics self) + (k - 1)"
  from play_freq_nth [OF assms(3) i j] sk assms(1) obtain m B where
    m: "ev (ratios ! i) = Inr m" and B: "calc_B self (base_freq self * m) = Inr (Some B)"
    and f: "f_list s ! ?j = base_freq self * m * real k * sqrt (1 + B * (real k)\<^sup>2)
               + (- jitter self + (jitter self - - jitter self) * rng ?j)"
    by auto
  have u: "0 \<le> rng ?j" "rng ?j < 1" using assms(2) by auto
  have lo: "0 \<le> 2 * jitter self * rng ?j"
    using assms(1) u(1) by simp
  have "2 * jitter self * rng ?j \<le> 2 * jitter self * 1"
    using assms(1) u(2) by (intro mult_left_mono) auto
  then have hi: "2 * jitter self * rng ?j \<le> 2 * jitter self" by simp
  have e: "(jitter self - - jitter self) * rng ?j = 2 * jitter self * rng ?j"
    by simp
  from f lo hi have
    "f_list s ! ?j = base_freq self * m * real k * sqrt (1 + B * (real k)\<^sup>2)
               + (- jitter self + 2 * jitter self * rng ?j) \<and>
     base_freq self * m * real k * sqrt (1 + B * (real k)\<^sup>2) - jitter self \<le> f_list s ! ?j \<and>
     f_list s ! ?j \<le> base_freq self * m * real k * sqrt (1 + B * (real k)\<^sup>2) + jitter self"
    unfolding e by linarith
  with m B show "\<exists>m B. ev (ratios ! i) = Inr m \<and> calc_B self (base_freq self * m) = Inr (Some B) \<and>
           (let f_k = base_freq self * m * real k * sqrt (1 + B * (real k)\<^sup>2);
                j = i * nat (n_harmonics self) + (k - 1)
            in f_list s ! j = f_k + (- jitter self + 2 * jitter self * rng j) \<and>
               f_k - jitter self \<le> f_list s ! j \<and> f_list s ! j \<le> f_k + jitter self)"
    unfolding Let_def by blast
next
  fix ns outs s' assume "stream_blocks s ns = Inr (outs, s')"
  then show "f_list s' = f_list s" by (rule stream_blocks_f_list)
qed

theorem jitter_once_per_build_witness:
  "0 < jitter (scenario_app \<lparr> jitter := 1 \<rparr>) \<and>
   (\<forall>i. 0 \<le> const_rng (3 / 4) i \<and> const_rng (3 / 4) i < 1) \<and>
   play (scenario_app \<lparr> jitter := 1 \<rparr>) scenario_eval (const_rng (3 / 4)) [''1.0'']
   = Inr (Some \<lparr> fs = 44100, f_list = [441 / 2], amp_list = [1], tau_list = [1],
                   norm_c = 3 / 10, phases = [0], t_cur = 0 \<rparr>) \<and>
   (\<exists>outs s'.
       stream_blocks \<lparr> fs = 44100, f_list = [441 / 2], amp_list = [1], tau_list = [1],
                       norm_c = 3 / 10, phases = [0], t_cur = 0 \<rparr> [4096, 4096]
         = Inr (outs, s') \<and>
       f_list s' = [441 / 2])"
proof -
  let ?s = "\<lparr> fs = 44100, f_list = [441 / 2], amp_list = [1], tau_list = [1],
              norm_c = 3 / 10, phases = [0], t_cur = 0 \<rparr>"
  have a: "0 < jitter (scenario_app \<lparr> jitter := 1 \<rparr>)" by (simp add: scenario_app_def)
  have b: "\<forall>i. 0 \<le> const_rng (3 / 4) i \<and> const_rng (3 / 4) i < 1"
    by (simp add: const_rng_def)
  have "fs ?s \<noteq> 0" by simp
  from stream_blocks_Inr [OF this, of "[4096, 4096]"] obtain outs s' where
    r: "stream_blocks ?s [4096, 4096] = Inr (outs, s')"
    by blast
  from jitter_once_per_build [OF a b evals(2)] r have "f_list s' = f_list ?s"
    by blast
  then have "f_list s' = [441 / 2]" by simp
  with a b evals(2) r show ?thesis by blast
qed

text \<open>
  The claim C9 as stated fails on its last part: with a jitter of 500 Hz on a
  pitch of 220 Hz and the unit sample 0 the stored frequency is \<open>- 280\<close>.
\<close>

theorem jitter_not_clamped_counterexample:
  "0 < jitter (scenario_app \<lparr> jitter := 500 \<rparr>) \<and> 0 \<le> const_rng 0 0 \<and> const_rng 0 0 < 1 \<and>
   play (scenario_app \<lparr> jitter := 500 \<rparr>) scenario_eval (const_rng 0) [''1.0'']
   = Inr (Some \<lparr> fs = 44100, f_list = [- 280], amp_list = [1], tau_list = [1],
                   norm_c = 3 / 10, phases = [0], t_cur = 0 \<rparr>)"
  using float_max_large
  by (simp add: play_unfold ratio_partials_def scenario_app_def scenario_eval_def calc_B_def
        float_pow_def arange1_def stretched_def Let_def uniform_def const_rng_def step_def
        float_max_less)

text \<open>
  C8. For \<open>jitter \<le> 0\<close> the result of the build does not depend on the random
  generator: two builds of the same chord with the same settings give the same
  result, and the states they return give the same output on every sequence of
  blocks.
\<close>

theorem deterministic_without_jitter:
  "jitter self \<le> 0 \<Longrightarrow>
     play self ev rng ratios = play self ev rng' ratios \<and>
     (\<forall>s s' ns. play self ev rng ratios = Inr (Some s) \<and> play self ev rng' ratios = Inr (Some s')
        \<longrightarrow> stream_blocks s ns = stream_blocks s' ns)"
  using play_no_jitter [of self ev rng ratios rng'] by auto

theorem deterministic_without_jitter_witness:
  "jitter scenario_app \<le> 0 \<and>
   play scenario_app scenario_eval (const_rng 0) [''1.0'', ''1.5'']
     = play scenario_app scenario_eval (const_rng (1 / 2)) [''1.0'', ''1.5''] \<and>
   play scenario_app scenario_eval (const_rng 0) [''1.0'', ''1.5''] = Inr (Some scenario_session) \<and>
   play scenario_app scenario_eval (const_rng (1 / 2)) [''1.0'', ''1.5'']
     = Inr (Some scenario_session)"
proof -
  have a: "jitter scenario_app \<le> 0" by (simp add: scenario_app_def)
  from deterministic_without_jitter [OF a, of scenario_eval "const_rng 0" "[''1.0'', ''1.5'']"
      "const_rng (1 / 2)"] a scenario_play [of "const_rng 0"]
  show ?thesis by simp
qed




section \<open>The envelope\<close>



section \<open>The streaming callback\<close>

text \<open>
  C7. The state that the build returns has all phases 0 and \<open>t_cur = 0\<close>. From
  it, for a sample rate that is not zero, every sequence of blocks runs to a state
  whose phases all lie in \<open>[0, 2 pi)\<close>, and from each such state a call of the
  callback with \<open>n\<close> frames returns: each new phase is the old phase plus
  \<open>2 pi f (n / fs)\<close> reduced modulo \<open>2 pi\<close>, that is, it differs from that sum by an
  integer multiple of \<open>2 pi\<close> and lies in \<open>[0, 2 pi)\<close>; the new \<open>t_cur\<close> is the old one
  plus \<open>n / fs\<close>.
\<close>

theorem phases_stay_in_range:
  assumes "play self ev rng ratios = Inr (Some s0)" and "self_fs self \<noteq> 0"
  shows "phases s0 = map (\<lambda>_. 0) (f_list s0) \<and> t_cur s0 = 0 \<and>
     (\<forall>ns. \<exists>outs s. stream_blocks s0 ns = Inr (outs, s) \<and>
        (\<forall>ph \<in> set (phases s). 0 \<le> ph \<and> ph < 2 * pi) \<and>
        (\<forall>n. \<exists>out s'. callback s n = Inr (out, s') \<and>
            length (phases s') = length (phases s) \<and>
            (\<forall>j < length (phases s).
               (\<exists>z::int. phases s' ! j
                  = phases s ! j + 2 * pi * f_list s ! j * (real n / of_int (fs s))
                    - of_int z * (2 * pi)) \<and>
               0 \<le> phases s' ! j \<and> phases s' ! j < 2 * pi) \<and>
            phases s' = map2 (\<lambda>ph f. np_mod (ph + 2 * pi * f * (real n / of_int (fs s))) (2 * pi))
                          (phases s) (f_list s) \<and>
            t_cur s' = t_cur s + real n / of_int (fs s) \<and>
            (\<forall>ph \<in> set (phases s'). 0 \<le> ph \<and> ph < 2 * pi)))"
proof (intro conjI allI)
  show "phases s0 = map (\<lambda>_. 0) (f_list s0)" and "t_cur s0 = 0"
    using play_initial [OF assms(1)] by simp_all
next
  fix ns
  have fs0: "fs s0 \<noteq> 0"
    using play_initial(1) [OF assms(1)] assms(2) by simp
  have al0: "aligned s0" using assms(1) by (rule play_aligned)
  from stream_blocks_Inr [OF fs0, of ns] obtain outs s where
    r: "stream_blocks s0 ns = Inr (outs, s)"
    and p: "ns \<noteq> [] \<longrightarrow> (\<forall>ph \<in> set (phases s). 0 \<le> ph \<and> ph < 2 * pi)"
    by blast
  from stream_blocks_aligned [OF fs0 al0 r] fs0 have fs: "fs s \<noteq> 0" and al: "aligned s"
    by simp_all
  have range: "\<forall>ph \<in> set (phases s). 0 \<le> ph \<and> ph < 2 * pi"
  proof (cases "ns = []")
    case True
    with r have "s = s0" by simp
    then show ?thesis
      using play_initial(3) [OF assms(1)] by auto
  next
    case False
    with p show ?thesis by simp
  qed
  from r range callback_congruence [OF fs al]
  show "\<exists>outs s. stream_blocks s0 ns = Inr (outs, s) \<and>
        (\<forall>ph \<in> set (phases s). 0 \<le> ph \<and> ph < 2 * pi) \<and>
        (\<forall>n. \<exists>out s'. callback s n = Inr (out, s') \<and>
            length (phases s') = length (phases s) \<and>
            (\<forall>j < length (phases s).
               (\<exists>z::int. phases s' ! j
                  = phases s ! j + 2 * pi * f_list s ! j * (real n / of_int (fs s))
                    - of_int z * (2 * pi)) \<and>
               0 \<le> phases s' ! j \<and> phases s' ! j < 2 * pi) \<and>
            phases s' = map2 (\<lambda>ph f. np_mod (ph + 2 * pi * f * (real n / of_int (fs s))) (2 * pi))
                          (phases s) (f_list s) \<and>
            t_cur s' = t_cur s + real n / of_int (fs s) \<and>
            (\<forall>ph \<in> set (phases s'). 0 \<le> ph \<and> ph < 2 * pi))"
    by blast
qed

theorem phases_stay_in_range_witness:
  "play scenario_app scenario_eval (const_rng 0) [''1.0'', ''1.5''] = Inr (Some scenario_session) \<and>
   self_fs scenario_app \<noteq> 0 \<and>
   (\<exists>outs s. stream_blocks scenario_session [4096, 4096] = Inr (outs, s) \<and>
      (\<forall>ph \<in> set (phases s). 0 \<le> ph \<and> ph < 2 * pi))"
proof -
  have a: "play scenario_app scenario_eval (const_rng 0) [''1.0'', ''1.5'']
           = Inr (Some scenario_session)"
    by (rule scenario_play)
  have b: "self_fs scenario_app \<noteq> 0" by (simp add: scenario_app_def)
  from phases_stay_in_range [OF a b] a b show ?thesis by blast
qed

text \<open>
  C1. From every state of the callback whose sample rate is not zero, two
  consecutive blocks of \<open>N\<close> frames give the same result as one block of \<open>2 N\<close>
  frames: the same output samples (the two blocks one after the other), the same
  final phases and the same final \<open>t_cur\<close>. The run returns, with \<open>2 N\<close> samples.
  The numbers are real numbers here, so the equality is exact.
\<close>

theorem two_blocks_one_block:
  "fs s \<noteq> 0 \<Longrightarrow> aligned s \<Longrightarrow>
     stream_blocks s [N, N] = stream_blocks s [2 * N] \<and>
     (\<exists>out s'. stream_blocks s [2 * N] = Inr (out, s') \<and> length out = 2 * N)"
  using two_blocks [of s N] stream_blocks_Inr [of s "[2 * N]"] by auto

theorem two_blocks_one_block_witness:
  "fs scenario_session \<noteq> 0 \<and> aligned scenario_session \<and>
   stream_blocks scenario_session [4096, 4096] = stream_blocks scenario_session [2 * 4096] \<and>
   (\<exists>out s'. stream_blocks scenario_session [2 * 4096] = Inr (out, s') \<and> length out = 2 * 4096)"
  using scenario_session_ok two_blocks_one_block [OF scenario_session_ok, of 4096] by blast

text \<open>
  C10. From a state whose sample rate is not zero every sequence of calls of the
  callback returns, and the final state differs from the first in \<open>phases\<close> and
  \<open>t_cur\<close> only: the frequencies, the amplitudes, the decay constants, the
  normalization constant and the sample rate are unchanged.
\<close>

theorem callback_frame:
  assumes "fs s \<noteq> 0"
  shows "\<exists>outs s'. stream_blocks s ns = Inr (outs, s') \<and>
           s' = s \<lparr> phases := phases s', t_cur := t_cur s' \<rparr> \<and>
           f_list s' = f_list s \<and> amp_list s' = amp_list s \<and> tau_list s' = tau_list s \<and>
           norm_c s' = norm_c s \<and> fs s' = fs s"
proof -
  from stream_blocks_Inr [OF assms, of ns] obtain outs s' where
    r: "stream_blocks s ns = Inr (outs, s')"
    and f: "s' = s \<lparr> phases := phases s', t_cur := t_cur s' \<rparr>"
    by blast
  have "f_list s' = f_list s" "amp_list s' = amp_list s" "tau_list s' = tau_list s"
    "norm_c s' = norm_c s" "fs s' = fs s"
    using arg_cong [OF f, of f_list] arg_cong [OF f, of amp_list] arg_cong [OF f, of tau_list]
      arg_cong [OF f, of norm_c] arg_cong [OF f, of fs]
    by simp_all
  with r f show ?thesis by blast
qed

theorem callback_frame_witness:
  "fs scenario_session \<noteq> 0 \<and>
   (\<exists>outs s'. stream_blocks scenario_session [4096, 4096] = Inr (outs, s') \<and>
      f_list s' = f_list scenario_session \<and> amp_list s' = amp_list scenario_session \<and>
      tau_list s' = tau_list scenario_session \<and> norm_c s' = norm_c scenario_session)"
proof -
  have a: "fs scenario_session \<noteq> 0" by (rule scenario_session_ok)
  from callback_frame [OF a, of "[4096, 4096]"] a show ?thesis by blast
qed

end
